theory Spec2Isabelle
  imports Main
begin

section \<open>Syntax trees and the list objects they are linearized into\<close>

text \<open>
  A syntax node as \<^verbatim>\<open>data_tools.py\<close> reads it: the attributes \<^verbatim>\<open>kind\<close>, \<^verbatim>\<open>value\<close>,
  \<^verbatim>\<open>symbol\<close> and the ordered \<^verbatim>\<open>children\<close>, in this order.
\<close>

datatype node = Node string string string "node list"

text \<open>Exceptions of the module are values.\<close>

datatype error = AttributeError | ParseError

text \<open>
  Python lists are mutable objects handed over by reference. A heap maps the address of
  every list object to its current contents; the argument \<^verbatim>\<open>list\<close> of \<^verbatim>\<open>ast2list\<close> is
  either \<^verbatim>\<open>None\<close> (its default) or the address of a list.
\<close>

type_synonym ref = nat
type_synonym heap = "ref \<Rightarrow> string list"

definition NO_EXPAND :: string where
  "NO_EXPAND = ''<NO_EXPAND>''"

text \<open>
  \<^verbatim>\<open>
  def ast2list(node, order='dfs', list=None):
      if order == 'dfs':
          list.append(node.symbol)
          for child in node.children:
              ast2list(child, order, list)
          list.append("<NO_EXPAND>")
      return list
  \<close>
  The result is the returned value (or the exception raised) together with the heap the
  call leaves behind. \<^verbatim>\<open>None.append\<close> raises \<^verbatim>\<open>AttributeError\<close> before anything is
  written. \<open>ast2list_children\<close> is the \<^verbatim>\<open>for\<close> loop; an exception of a recursive call
  leaves the loop.
\<close>

fun ast2list :: "node \<Rightarrow> string \<Rightarrow> ref option \<Rightarrow> heap \<Rightarrow> (error + ref option) \<times> heap"
  and ast2list_children :: "node list \<Rightarrow> string \<Rightarrow> ref option \<Rightarrow> heap \<Rightarrow> error option \<times> heap"
where
  "ast2list (Node k v s cs) order l h =
     (if order = ''dfs'' then
        (case l of
           None \<Rightarrow> (Inl AttributeError, h)
         | Some a \<Rightarrow>
             (case ast2list_children cs order l (h(a := h a @ [s])) of
                (Some e, h') \<Rightarrow> (Inl e, h')
              | (None, h') \<Rightarrow> (Inr l, h'(a := h' a @ [NO_EXPAND]))))
      else (Inr l, h))"
| "ast2list_children [] order l h = (None, h)"
| "ast2list_children (c # cs) order l h =
     (case ast2list c order l h of
        (Inl e, h') \<Rightarrow> (Some e, h')
      | (Inr r, h') \<Rightarrow> ast2list_children cs order l h')"

text \<open>
  The flat sequence in the words of the specification: the symbol of a node, then the
  sequence of each child in order, then one terminator.
\<close>

fun linearize :: "node \<Rightarrow> string list" where
  "linearize (Node k v s cs) = s # concat (map linearize cs) @ [NO_EXPAND]"

text \<open>The nodes of a tree, and their symbols and child counts in pre-order.\<close>

fun nodes :: "node \<Rightarrow> nat" where
  "nodes (Node k v s cs) = Suc (sum_list (map nodes cs))"

fun symbols :: "node \<Rightarrow> string list" where
  "symbols (Node k v s cs) = s # concat (map symbols cs)"

fun child_counts :: "node \<Rightarrow> nat list" where
  "child_counts (Node k v s cs) = length cs # concat (map child_counts cs)"

section \<open>Delinearization\<close>

text \<open>
  \<^verbatim>\<open>
  def list2ast(list, order='dfs'):
      return normalizer.list_to_ast(list, order)
  \<close>
  \<^verbatim>\<open>normalizer.list_to_ast\<close> is not among the sources, so it is modelled below from the
  specification. The padding symbol is the one the module's interactive loop appends to a
  linearized tree before it calls \<^verbatim>\<open>list2ast\<close>.
\<close>

definition PAD :: string where
  "PAD = ''<PAD>''"

definition is_terminator :: "string \<Rightarrow> bool" where
  "is_terminator s = (s = NO_EXPAND \<or> s = PAD)"

text \<open>
  Modelled from the spec: \<^verbatim>\<open>normalizer.list_to_ast\<close>, the delinearizer of section 4.4.
  ``Read one symbol: if it is the terminator, return "no node, stop expanding this
  subtree" to the caller; otherwise create a node with that symbol and repeatedly attempt
  to read and attach children until a terminator is consumed at this level. When input is
  exhausted mid-expansion, treat the current node as terminated. A single designated
  padding symbol is treated as terminator-equivalent.''
  \<open>read_node\<close> reads one symbol, \<open>read_children\<close> is the repeated attempt; both return
  the unread rest of the sequence. The specification fixes the symbol and the children of
  a rebuilt node only: its kind and value are whatever \<open>mk\<close> derives from the symbol.
\<close>

function (sequential, domintros)
  read_node :: "(string \<Rightarrow> string \<times> string) \<Rightarrow> string list \<Rightarrow> node option \<times> string list"
  and read_children :: "(string \<Rightarrow> string \<times> string) \<Rightarrow> string list \<Rightarrow> node list \<times> string list"
where
  "read_node mk [] = (None, [])"
| "read_node mk (x # xs) =
     (if is_terminator x then (None, xs)
      else (case read_children mk xs of
              (cs, rest) \<Rightarrow> (Some (Node (fst (mk x)) (snd (mk x)) x cs), rest)))"
| "read_children mk xs =
     (case read_node mk xs of
        (None, rest) \<Rightarrow> ([], rest)
      | (Some c, rest) \<Rightarrow>
          (case read_children mk rest of (cs, rest') \<Rightarrow> (c # cs, rest')))"
  by pat_completeness auto

lemma read_shorter:
  "read_node_read_children_dom (Inl (mk, xs)) \<Longrightarrow>
     length (snd (read_node mk xs)) \<le> length xs \<and>
     (fst (read_node mk xs) \<noteq> None \<longrightarrow> length (snd (read_node mk xs)) < length xs)"
  "read_node_read_children_dom (Inr (mk, xs)) \<Longrightarrow>
     length (snd (read_children mk xs)) \<le> length xs"
proof (induction mk xs and mk xs rule: read_node_read_children.pinduct)
  case (1 mk)
  then show ?case by (simp add: read_node.psimps)
next
  case (2 mk x xs)
  then show ?case by (auto simp: read_node.psimps split: prod.splits)
next
  case (3 mk xs)
  then show ?case
    by (auto simp: read_children.psimps split: prod.splits option.splits)
qed

lemma read_node_Some_shorter:
  assumes "read_node_read_children_dom (Inl (mk, xs))" and "read_node mk xs = (Some c, y)"
  shows "length y < length xs"
proof -
  have "fst (read_node mk xs) \<noteq> None" and "snd (read_node mk xs) = y"
    using assms(2) by simp_all
  with read_shorter(1)[OF assms(1)] show ?thesis by blast
qed

termination read_node
proof (relation "measure (\<lambda>v. case v of Inl (mk, xs) \<Rightarrow> 2 * length xs
                                     | Inr (mk, xs) \<Rightarrow> 2 * length xs + 1)", goal_cases)
  case 1
  show ?case by simp
next
  case (2 mk x xs)
  show ?case by simp
next
  case (3 mk xs)
  show ?case by simp
next
  case (4 mk xs x y c)
  then have "read_node mk xs = (Some c, y)" by simp
  from read_node_Some_shorter[OF 4(3) this] show ?case by simp
qed

declare read_children.simps [simp del]

definition list_to_ast :: "(string \<Rightarrow> string \<times> string) \<Rightarrow> string list \<Rightarrow> string \<Rightarrow> node option" where
  "list_to_ast mk xs order = fst (read_node mk xs)"

definition list2ast :: "(string \<Rightarrow> string \<times> string) \<Rightarrow> string list \<Rightarrow> string \<Rightarrow> node option" where
  "list2ast mk xs order = list_to_ast mk xs order"

text \<open>The tree the delinearizer builds from the symbols and the shape of a given tree.\<close>

fun rebuild :: "(string \<Rightarrow> string \<times> string) \<Rightarrow> node \<Rightarrow> node" where
  "rebuild mk (Node k v s cs) = Node (fst (mk s)) (snd (mk s)) s (map (rebuild mk) cs)"

text \<open>A tree to run the definitions on: the shape of \<^verbatim>\<open>find . -name x\<close>.\<close>

definition sample_tree :: node where
  "sample_tree =
     Node ''headcommand'' ''find'' ''HEADCOMMAND_find''
       [Node ''argument'' ''.'' ''ARGUMENT_File'' [],
        Node ''flag'' ''-name'' ''FLAG_-name'' [Node ''argument'' ''x'' ''ARGUMENT_Regex'' []]]"

section \<open>Strings as Python 2 handles them\<close>

text \<open>
  A Python 2 \<^verbatim>\<open>str\<close> is a sequence of bytes, as \<^typ>\<open>string\<close> is. The character classes
  are those of the C locale.
\<close>

definition apostrophe :: char where "apostrophe = CHR 0x27"
definition dquote :: char where "dquote = CHR 0x22"
definition backslash :: char where "backslash = CHR 0x5C"
definition backtick :: char where "backtick = CHR 0x60"
definition newline :: char where "newline = CHR 0x0A"

definition lowercase_letters :: string where
  "lowercase_letters = ''abcdefghijklmnopqrstuvwxyz''"

definition uppercase_letters :: string where
  "uppercase_letters = ''ABCDEFGHIJKLMNOPQRSTUVWXYZ''"

definition is_lower :: "char \<Rightarrow> bool" where
  "is_lower c = (c \<in> set lowercase_letters)"

definition is_upper :: "char \<Rightarrow> bool" where
  "is_upper c = (c \<in> set uppercase_letters)"

definition is_space :: "char \<Rightarrow> bool" where
  "is_space c = (c \<in> set [CHR '' '', CHR 0x09, CHR 0x0A, CHR 0x0B, CHR 0x0C, CHR 0x0D])"

definition lower_char :: "char \<Rightarrow> char" where
  "lower_char c = (case map_of (zip uppercase_letters lowercase_letters) c of Some l \<Rightarrow> l | None \<Rightarrow> c)"

definition upper_char :: "char \<Rightarrow> char" where
  "upper_char c = (case map_of (zip lowercase_letters uppercase_letters) c of Some u \<Rightarrow> u | None \<Rightarrow> c)"

text \<open>\<^verbatim>\<open>s.lower()\<close>, \<^verbatim>\<open>s.upper()\<close>, \<^verbatim>\<open>s.islower()\<close>, \<^verbatim>\<open>s.isupper()\<close>, \<^verbatim>\<open>s.isalpha()\<close>.\<close>

definition lower :: "string \<Rightarrow> string" where
  "lower s = map lower_char s"

definition upper :: "string \<Rightarrow> string" where
  "upper s = map upper_char s"

definition islower :: "string \<Rightarrow> bool" where
  "islower s = (list_ex is_lower s \<and> \<not> list_ex is_upper s)"

definition isupper :: "string \<Rightarrow> bool" where
  "isupper s = (list_ex is_upper s \<and> \<not> list_ex is_lower s)"

definition isalpha :: "string \<Rightarrow> bool" where
  "isalpha s = (s \<noteq> [] \<and> list_all (\<lambda>c. is_lower c \<or> is_upper c) s)"

text \<open>\<^verbatim>\<open>s.startswith(p)\<close>, \<^verbatim>\<open>s.endswith(p)\<close>, \<^verbatim>\<open>s.strip()\<close>, \<^verbatim>\<open>sep.join(xs)\<close>.\<close>

definition startswith :: "string \<Rightarrow> string \<Rightarrow> bool" where
  "startswith s p = (take (length p) s = p)"

definition endswith :: "string \<Rightarrow> string \<Rightarrow> bool" where
  "endswith s p = (length p \<le> length s \<and> drop (length s - length p) s = p)"

definition strip :: "string \<Rightarrow> string" where
  "strip s = rev (dropWhile is_space (rev (dropWhile is_space s)))"

fun join :: "string \<Rightarrow> string list \<Rightarrow> string" where
  "join sep [] = []"
| "join sep [x] = x"
| "join sep (x # y # ys) = x @ sep @ join sep (y # ys)"

text \<open>
  \<^verbatim>\<open>s.replace(old, new)\<close>: every occurrence of \<open>old\<close>, found from the left and not
  overlapping, becomes \<open>new\<close>; an empty \<open>old\<close> matches before every character and at the
  end.
\<close>

function replace :: "string \<Rightarrow> string \<Rightarrow> string \<Rightarrow> string" where
  "replace old new [] = (if old = [] then new else [])"
| "replace old new (c # cs) =
     (if old = [] then new @ c # replace old new cs
      else if startswith (c # cs) old then new @ replace old new (drop (length old) (c # cs))
      else c # replace old new cs)"
  by pat_completeness auto
termination
  by (relation "measure (\<lambda>(old, new, s). length s)") auto

section \<open>The regular expressions of the tokenizer\<close>

text \<open>
  \<^verbatim>\<open>re.sub('^\'', '"', s)\<close> and \<^verbatim>\<open>re.sub('\'$', '"', s)\<close>: an apostrophe that opens the
  sentence, and one that closes it (\<^verbatim>\<open>$\<close> also matches before a final newline).
\<close>

definition sub_leading_apostrophe :: "string \<Rightarrow> string" where
  "sub_leading_apostrophe s =
     (case s of [] \<Rightarrow> [] | c # cs \<Rightarrow> if c = apostrophe then dquote # cs else s)"

definition sub_trailing_apostrophe :: "string \<Rightarrow> string" where
  "sub_trailing_apostrophe s =
     (if endswith s [apostrophe] then butlast s @ [dquote]
      else if endswith s [apostrophe, newline] then take (length s - 2) s @ [dquote, newline]
      else s)"

text \<open>
  \<^verbatim>\<open>re.sub('(p\s+)|(p$)', ' ', s)\<close> for a punctuation character \<open>p\<close>: the character with
  all the white space after it, or the character at the end of the sentence, becomes one
  space.
\<close>

function sub_punctuation :: "char \<Rightarrow> string \<Rightarrow> string" where
  "sub_punctuation p [] = []"
| "sub_punctuation p (c # cs) =
     (if c = p \<and> (cs = [] \<or> is_space (hd cs))
      then CHR '' '' # sub_punctuation p (dropWhile is_space cs)
      else c # sub_punctuation p cs)"
  by pat_completeness auto
termination
  by (relation "measure (\<lambda>(p, s). length s)")
     (auto simp: less_Suc_eq_le length_dropWhile_le)

text \<open>
  \<^verbatim>\<open>re.findall(_WORD_SPLIT_RESPECT_QUOTES, s)\<close> with the pattern
  \<^verbatim>\<open>(?:[^\s,"]|"(?:\.|[^"])*")+\<close> (the literal is not a raw string, so its \<^verbatim>\<open>\\.\<close> is
  the pattern \<^verbatim>\<open>\.\<close>, a dot, which \<^verbatim>\<open>[^"]\<close> covers). A match is a longest run of
  characters other than white space, comma and double quote, and of spans from a double
  quote to the next one. A double quote with none after it ends the match before it and
  is skipped. \<open>cur\<close> is the match read so far, \<open>inq\<close> says that a span is open.
\<close>

definition flush :: "string \<Rightarrow> string list" where
  "flush cur = (if cur = [] then [] else [cur])"

fun scan_words :: "string \<Rightarrow> bool \<Rightarrow> string \<Rightarrow> string list" where
  "scan_words cur inq [] = flush cur"
| "scan_words cur True (c # cs) = scan_words (cur @ [c]) (c \<noteq> dquote) cs"
| "scan_words cur False (c # cs) =
     (if c = dquote then
        (if dquote \<in> set cs then scan_words (cur @ [c]) True cs
         else flush cur @ scan_words [] False cs)
      else if is_space c \<or> c = CHR '','' then flush cur @ scan_words [] False cs
      else scan_words (cur @ [c]) False cs)"

definition findall_WORD_SPLIT_RESPECT_QUOTES :: "string \<Rightarrow> string list" where
  "findall_WORD_SPLIT_RESPECT_QUOTES s = scan_words [] False s"

section \<open>The lexical normalizer\<close>

text \<open>
  What \<^verbatim>\<open>basic_tokenizer\<close> takes from other modules, none of them among the sources:
  the lemmatizer \<^verbatim>\<open>lmtzr.lemmatize\<close>, \<^verbatim>\<open>spell_check.correction\<close>, the tables
  \<^verbatim>\<open>gazetteer.ENGLISH_STOPWORDS\<close> and \<^verbatim>\<open>gazetteer.word2num\<close> (here with \<^verbatim>\<open>str\<close> already
  applied to its values), \<^verbatim>\<open>bash.is_english_word\<close>, the placeholders \<^verbatim>\<open>bash._LONG_PATTERN\<close>
  and \<^verbatim>\<open>bash._NUM\<close>, and the pattern \<^verbatim>\<open>bash._DIGIT_RE\<close>, given by its substitution
  \<^verbatim>\<open>re.sub(bash._DIGIT_RE, repl, word)\<close> as a function of \<open>repl\<close> and \<open>word\<close>.
\<close>

record tokenizer_env =
  lemmatize :: "string \<Rightarrow> string"
  correction :: "string \<Rightarrow> string"
  ENGLISH_STOPWORDS :: "string set"
  word2num :: "string \<Rightarrow> string option"
  is_english_word :: "string \<Rightarrow> bool"
  LONG_PATTERN :: string
  NUM :: string
  sub_DIGIT_RE :: "string \<Rightarrow> string \<Rightarrow> string"

text \<open>
  The rewriting of the sentence before it is split, lines 44 to 70 of the source: the
  chain of \<^verbatim>\<open>replace\<close> calls, the two apostrophe substitutions, the four punctuation
  substitutions and the five contractions, whose replacement \<^verbatim>\<open>'\\\'s'\<close> is a backslash
  before the matched text.
\<close>

definition canonicalize_quotes :: "string \<Rightarrow> string" where
  "canonicalize_quotes s =
     (let s = replace [backtick, apostrophe] [dquote] s;
          s = replace [backtick, backtick] [dquote] s;
          s = replace [apostrophe, apostrophe] [dquote] s;
          s = replace [CHR '' '', apostrophe] [CHR '' '', dquote] s;
          s = replace [apostrophe, CHR '' ''] [dquote, CHR '' ''] s;
          s = replace [backtick] [dquote] s;
          s = replace ''('' ''( '' s;
          s = replace '')'' '' )'' s;
          s = sub_leading_apostrophe s;
          s = sub_trailing_apostrophe s
      in s)"

definition collapse_punctuation :: "string \<Rightarrow> string" where
  "collapse_punctuation s =
     sub_punctuation (CHR ''.'') (sub_punctuation (CHR '':'')
       (sub_punctuation (CHR '';'') (sub_punctuation (CHR '','') s)))"

definition escape_contraction :: "string \<Rightarrow> string \<Rightarrow> string" where
  "escape_contraction suffix s = replace (apostrophe # suffix) (backslash # apostrophe # suffix) s"

definition escape_contractions :: "string \<Rightarrow> string" where
  "escape_contractions s =
     escape_contraction ''t'' (escape_contraction ''d'' (escape_contraction ''ve''
       (escape_contraction ''re'' (escape_contraction ''s'' s))))"

definition rewrite_sentence :: "string \<Rightarrow> string" where
  "rewrite_sentence s = escape_contractions (collapse_punctuation (canonicalize_quotes s))"

text \<open>
  The stages of the loop body, lines 76 to 131, each under the comment the source gives
  it. A stage that prints returns the printed lines beside the word.
\<close>

definition remove_upper_cases :: "bool \<Rightarrow> string \<Rightarrow> string" where
  "remove_upper_cases lower_case word =
     (if lower_case \<and> length word > 1 \<and> is_upper (hd word) \<and> islower (tl word)
      then lower word else word)"

definition lemmatization_stage :: "tokenizer_env \<Rightarrow> bool \<Rightarrow> string \<Rightarrow> string" where
  "lemmatization_stage env lemmatization word =
     (if lemmatization then lemmatize env word else word)"

definition spelling_correction :: "tokenizer_env \<Rightarrow> string \<Rightarrow> string \<times> string list" where
  "spelling_correction env word =
     (if isalpha word then
        (let old_w = word; word = correction env word
         in (word, if word \<noteq> old_w
                   then [''spell correction: '' @ old_w @ '' -> '' @ word] else []))
      else (word, []))"

definition number_words :: "tokenizer_env \<Rightarrow> string \<Rightarrow> string" where
  "number_words env word = (case word2num env word of Some n \<Rightarrow> n | None \<Rightarrow> word)"

definition normalize_regular_expressions :: "tokenizer_env \<Rightarrow> string \<Rightarrow> string" where
  "normalize_regular_expressions env word =
     (if \<not> is_english_word env word then
        (let word = (if \<not> startswith word [dquote] then dquote # word else word);
             word = (if \<not> endswith word [dquote] then word @ [dquote] else word)
         in word)
      else word)"

definition quoted :: "string \<Rightarrow> bool" where
  "quoted word = (startswith word [dquote] \<and> endswith word [dquote])"

definition normalize_long_patterns ::
  "tokenizer_env \<Rightarrow> bool \<Rightarrow> string \<Rightarrow> string \<Rightarrow> string \<times> string list" where
  "normalize_long_patterns env normalize_long_pattern sentence word =
     (if CHR '' '' \<in> set word \<and> length word > 3 then
        (if normalize_long_pattern then LONG_PATTERN env else word,
         if quoted word then [] else [''Quotation Error: space inside word '' @ sentence])
      else (word, []))"

definition normalize_digits_stage :: "tokenizer_env \<Rightarrow> bool \<Rightarrow> string \<Rightarrow> string" where
  "normalize_digits_stage env normalize_digits word =
     (if normalize_digits \<and> \<not> startswith word ''-''
      then sub_DIGIT_RE env (NUM env) word else word)"

definition possessive :: "string \<Rightarrow> string list" where
  "possessive word =
     (if endswith word [apostrophe, CHR ''s'']
      then [take (length word - 2) word, [apostrophe, CHR ''s'']] else [word])"

text \<open>
  One pass of the loop: the tokens it appends to \<^verbatim>\<open>normalized_words\<close> and the lines it
  prints. A stop word leaves the pass at \<^verbatim>\<open>continue\<close>.
\<close>

definition tokenize_word ::
  "tokenizer_env \<Rightarrow> string \<Rightarrow> bool \<Rightarrow> bool \<Rightarrow> bool \<Rightarrow> bool \<Rightarrow> bool \<Rightarrow> string
     \<Rightarrow> string list \<times> string list" where
  "tokenize_word env sentence lower_case normalize_digits normalize_long_pattern
       lemmatization remove_stop_words w =
     (let word = strip w;
          word = remove_upper_cases lower_case word;
          word = lemmatization_stage env lemmatization word;
          (word, printed1) = spelling_correction env word
      in if remove_stop_words \<and> word \<in> ENGLISH_STOPWORDS env then ([], printed1)
         else
           (let word = number_words env word;
                word = normalize_regular_expressions env word;
                (word, printed2) = normalize_long_patterns env normalize_long_pattern sentence word;
                word = normalize_digits_stage env normalize_digits word
            in (possessive word, printed1 @ printed2)))"

fun tokenize_words ::
  "tokenizer_env \<Rightarrow> string \<Rightarrow> bool \<Rightarrow> bool \<Rightarrow> bool \<Rightarrow> bool \<Rightarrow> bool \<Rightarrow> string list
     \<Rightarrow> string list \<times> string list \<Rightarrow> string list \<times> string list" where
  "tokenize_words env sentence lc nd nlp lm rsw [] acc = acc"
| "tokenize_words env sentence lc nd nlp lm rsw (w # ws) (normalized_words, printed) =
     (case tokenize_word env sentence lc nd nlp lm rsw w of
        (tokens, lines) \<Rightarrow>
          tokenize_words env sentence lc nd nlp lm rsw ws
            (normalized_words @ tokens, printed @ lines))"

text \<open>
  \<^verbatim>\<open>basic_tokenizer\<close> returns \<^verbatim>\<open>normalized_words\<close>; the second component is what the call
  has printed. Nothing in it raises.
\<close>

definition basic_tokenizer ::
  "tokenizer_env \<Rightarrow> string \<Rightarrow> bool \<Rightarrow> bool \<Rightarrow> bool \<Rightarrow> bool \<Rightarrow> bool
     \<Rightarrow> string list \<times> string list" where
  "basic_tokenizer env sentence lower_case normalize_digits normalize_long_pattern
       lemmatization remove_stop_words =
     (let sentence = rewrite_sentence sentence;
          words = findall_WORD_SPLIT_RESPECT_QUOTES sentence
      in tokenize_words env sentence lower_case normalize_digits normalize_long_pattern
           lemmatization remove_stop_words words ([], []))"

text \<open>The word as the loop body holds it before and after the spelling correction.\<close>

definition before_spelling :: "tokenizer_env \<Rightarrow> bool \<Rightarrow> bool \<Rightarrow> string \<Rightarrow> string" where
  "before_spelling env lower_case lemmatization w =
     lemmatization_stage env lemmatization (remove_upper_cases lower_case (strip w))"

definition before_long_patterns :: "tokenizer_env \<Rightarrow> bool \<Rightarrow> bool \<Rightarrow> string \<Rightarrow> string" where
  "before_long_patterns env lower_case lemmatization w =
     normalize_regular_expressions env (number_words env
       (fst (spelling_correction env (before_spelling env lower_case lemmatization w))))"

definition after_spelling ::
  "tokenizer_env \<Rightarrow> string \<Rightarrow> bool \<Rightarrow> bool \<Rightarrow> string \<Rightarrow> string list \<times> string list" where
  "after_spelling env sentence normalize_digits normalize_long_pattern word =
     (let word = number_words env word;
          word = normalize_regular_expressions env word;
          (word, printed2) = normalize_long_patterns env normalize_long_pattern sentence word;
          word = normalize_digits_stage env normalize_digits word
      in (possessive word, printed2))"

text \<open>
  An environment to run the tokenizer in. Its digit pattern is a run of decimal digits,
  its numeral placeholder \<^verbatim>\<open>_NUM\<close>, its long-pattern placeholder \<^verbatim>\<open>_LONG_PATTERN\<close>;
  a word is English when it is made of letters, digits and hyphens.
\<close>

definition is_digit :: "char \<Rightarrow> bool" where
  "is_digit c = (c \<in> set ''0123456789'')"

fun sub_digit_runs :: "string \<Rightarrow> bool \<Rightarrow> string \<Rightarrow> string" where
  "sub_digit_runs repl in_run [] = []"
| "sub_digit_runs repl in_run (c # cs) =
     (if is_digit c then (if in_run then [] else repl) @ sub_digit_runs repl True cs
      else c # sub_digit_runs repl False cs)"

definition sample_env :: tokenizer_env where
  "sample_env = \<lparr>
     lemmatize = (\<lambda>w. if w = ''files'' then ''file'' else w),
     correction = (\<lambda>w. if w = ''teh'' then ''the'' else w),
     ENGLISH_STOPWORDS = {''the'', ''a'', ''to'', ''i''},
     word2num = [''one'' \<mapsto> ''1'', ''two'' \<mapsto> ''2''],
     is_english_word = (\<lambda>w. list_all (\<lambda>c. is_lower c \<or> is_upper c \<or> is_digit c \<or> c = CHR ''-'') w),
     LONG_PATTERN = ''_LONG_PATTERN'',
     NUM = ''_NUM'',
     sub_DIGIT_RE = (\<lambda>repl word. sub_digit_runs repl False word) \<rparr>"


section \<open>The character tokenizer\<close>

definition SPACE :: string where
  "SPACE = ''<SPACE>''"

text \<open>
  \<^verbatim>\<open>
  def char_tokenizer(sentence, base_tokenizer=None, normalize_digits=False,
                     normalize_long_pattern=False):
      if base_tokenizer:
          tokens = base_tokenizer(sentence, normalize_digits=False,
                                  normalize_long_pattern=False)
      else:
          tokens = [sentence]
      chars = []
      for token in tokens:
          for c in token:
              chars.append(c)
          chars.append(_SPACE)
      return chars[:-1]
  \<close>
  A base tokenizer returns its tokens and what it has printed, as \<open>basic_tokenizer\<close>
  does; \<^verbatim>\<open>None\<close> is no tokenizer.
\<close>

type_synonym tokenizer = "string \<Rightarrow> bool \<Rightarrow> bool \<Rightarrow> string list \<times> string list"

definition append_token :: "string \<Rightarrow> string list \<Rightarrow> string list" where
  "append_token token chars = fold (\<lambda>c chars. chars @ [[c]]) token chars @ [SPACE]"

definition char_tokenizer ::
  "string \<Rightarrow> tokenizer option \<Rightarrow> bool \<Rightarrow> bool \<Rightarrow> string list \<times> string list" where
  "char_tokenizer sentence base_tokenizer normalize_digits normalize_long_pattern =
     (case (case base_tokenizer of
              Some f \<Rightarrow> f sentence False False
            | None \<Rightarrow> ([sentence], [])) of
        (tokens, printed) \<Rightarrow> (butlast (fold append_token tokens []), printed))"

text \<open>
  The same sequence in the words of the specification: the characters of the tokens with
  one separator between successive tokens.
\<close>

fun separated :: "string list \<Rightarrow> string list" where
  "separated [] = []"
| "separated [t] = map (\<lambda>c. [c]) t"
| "separated (t # u # ts) = map (\<lambda>c. [c]) t @ SPACE # separated (u # ts)"

section \<open>The pretty printer\<close>

text \<open>
  \<^verbatim>\<open>pretty_print\<close> is written for any object: an attribute it reads may be missing.
  \<^verbatim>\<open>None\<close> is a missing attribute; one that is there has the type the printer expects.
\<close>

datatype pyobj =
  PyObj (kind_attr: "string option") (value_attr: "string option")
        (children_attr: "pyobj list option")

definition indent :: "int \<Rightarrow> string" where
  "indent depth = concat (replicate (nat depth) ''    '')"

text \<open>
  \<^verbatim>\<open>
  def pretty_print(node, depth=0):
      try:
          print("    " * depth + node.kind.upper() + '(' + node.value + ')')
          for child in node.children:
              pretty_print(child, depth+1)
      except AttributeError, e:
          print("    " * depth)
  \<close>
  The result is the exception that leaves the call, if any, and the lines printed so far.
  The inner \<open>case\<close> is the body of \<^verbatim>\<open>try\<close>, the outer one the handler.
\<close>

fun pretty_print :: "pyobj \<Rightarrow> int \<Rightarrow> string list \<Rightarrow> error option \<times> string list"
  and pretty_print_children :: "pyobj list \<Rightarrow> int \<Rightarrow> string list \<Rightarrow> error option \<times> string list"
where
  "pretty_print (PyObj k v cs) depth out =
     (case (case k of
              None \<Rightarrow> (Some AttributeError, out)
            | Some kind \<Rightarrow>
                (case v of
                   None \<Rightarrow> (Some AttributeError, out)
                 | Some value \<Rightarrow>
                     (case cs of
                        None \<Rightarrow>
                          (Some AttributeError,
                           out @ [indent depth @ upper kind @ ''('' @ value @ '')''])
                      | Some children \<Rightarrow>
                          pretty_print_children children depth
                            (out @ [indent depth @ upper kind @ ''('' @ value @ '')''])))) of
        (Some AttributeError, out') \<Rightarrow> (None, out' @ [indent depth])
      | r \<Rightarrow> r)"
| "pretty_print_children [] depth out = (None, out)"
| "pretty_print_children (c # cs) depth out =
     (case pretty_print c (depth + 1) out of
        (Some e, out') \<Rightarrow> (Some e, out')
      | (None, out') \<Rightarrow> pretty_print_children cs depth out')"

text \<open>
  The lines \<^verbatim>\<open>pretty_print\<close> adds for an object: the line of the object and the lines of
  its children one level deeper; for an object without \<^verbatim>\<open>kind\<close> or \<^verbatim>\<open>value\<close> the
  indentation alone; for one with both and without \<^verbatim>\<open>children\<close> its line and then the
  indentation.
\<close>

fun printed_lines :: "pyobj \<Rightarrow> int \<Rightarrow> string list" where
  "printed_lines (PyObj k v cs) depth =
     (case k of
        None \<Rightarrow> [indent depth]
      | Some kind \<Rightarrow>
          (case v of
             None \<Rightarrow> [indent depth]
           | Some value \<Rightarrow>
               (indent depth @ upper kind @ ''('' @ value @ '')'') #
               (case cs of
                  None \<Rightarrow> [indent depth]
                | Some children \<Rightarrow> concat (map (\<lambda>c. printed_lines c (depth + 1)) children))))"

section \<open>The parser and renderer adapter\<close>

text \<open>
  \<^verbatim>\<open>normalizer.normalize_ast\<close> and \<^verbatim>\<open>normalizer.to_tokens\<close> are not among the sources.
  Each is a function of its arguments and of whatever state \<open>'s\<close> the normalizer keeps;
  it returns a value or raises, and leaves a state behind.
\<close>

record 's normalizer =
  normalize_ast :: "string \<Rightarrow> bool \<Rightarrow> bool \<Rightarrow> bool \<Rightarrow> 's \<Rightarrow> (error + node) \<times> 's"
  to_tokens :: "node \<Rightarrow> bool \<Rightarrow> bool \<Rightarrow> bool \<Rightarrow> 's \<Rightarrow> (error + string list) \<times> 's"

text \<open>
  \<^verbatim>\<open>
  def bash_parser(cmd, normalize_digits=True, normalize_long_pattern=True,
                  recover_quotation=True):
      return normalizer.normalize_ast(cmd, normalize_digits, normalize_long_pattern,
                                      recover_quotation)
  def ast2template(node, loose_constraints=False, arg_type_only=True):
      tokens = normalizer.to_tokens(node, loose_constraints, ignore_flag_order=True,
                                    arg_type_only=arg_type_only)
      return ' '.join(tokens)
  def cmd2template(cmd, normalize_digits=True, normalize_long_pattern=True,
                  recover_quotation=True, arg_type_only=True,
                  loose_constraints=False):
      tree = normalizer.normalize_ast(cmd, normalize_digits, normalize_long_pattern,
                           recover_quotation)
      return ast2template(tree, loose_constraints, arg_type_only)
  \<close>
\<close>

definition bash_parser ::
  "'s normalizer \<Rightarrow> string \<Rightarrow> bool \<Rightarrow> bool \<Rightarrow> bool \<Rightarrow> 's \<Rightarrow> (error + node) \<times> 's" where
  "bash_parser nz cmd normalize_digits normalize_long_pattern recover_quotation st =
     normalize_ast nz cmd normalize_digits normalize_long_pattern recover_quotation st"

definition ast2template ::
  "'s normalizer \<Rightarrow> node \<Rightarrow> bool \<Rightarrow> bool \<Rightarrow> 's \<Rightarrow> (error + string) \<times> 's" where
  "ast2template nz node loose_constraints arg_type_only st =
     (case to_tokens nz node loose_constraints True arg_type_only st of
        (Inl e, st') \<Rightarrow> (Inl e, st')
      | (Inr tokens, st') \<Rightarrow> (Inr (join '' '' tokens), st'))"

definition cmd2template ::
  "'s normalizer \<Rightarrow> string \<Rightarrow> bool \<Rightarrow> bool \<Rightarrow> bool \<Rightarrow> bool \<Rightarrow> bool \<Rightarrow> 's
     \<Rightarrow> (error + string) \<times> 's" where
  "cmd2template nz cmd normalize_digits normalize_long_pattern recover_quotation
       arg_type_only loose_constraints st =
     (case normalize_ast nz cmd normalize_digits normalize_long_pattern recover_quotation st of
        (Inl e, st') \<Rightarrow> (Inl e, st')
      | (Inr tree, st') \<Rightarrow> ast2template nz tree loose_constraints arg_type_only st')"

text \<open>
  The composition of the specification: parse, and if the parser returned a tree, render
  it in the state the parser left.
\<close>

definition render_after_parse ::
  "('s \<Rightarrow> (error + node) \<times> 's) \<Rightarrow> (node \<Rightarrow> 's \<Rightarrow> (error + string) \<times> 's)
     \<Rightarrow> 's \<Rightarrow> (error + string) \<times> 's" where
  "render_after_parse parse render st =
     (case parse st of
        (Inl e, st') \<Rightarrow> (Inl e, st')
      | (Inr tree, st') \<Rightarrow> render tree st')"

section \<open>Linearization\<close>

lemma ast2list_dfs_aux:
  "ast2list t ''dfs'' (Some a) h = (Inr (Some a), h(a := h a @ linearize t))"
  "ast2list_children ts ''dfs'' (Some a) h = (None, h(a := h a @ concat (map linearize ts)))"
proof (induction t "''dfs''" "Some a" h and ts "''dfs''" "Some a" h
    rule: ast2list_ast2list_children.induct)
  case (1 k v s cs h)
  then show ?case by simp
next
  case (2 h)
  then show ?case by simp
next
  case (3 c cs h)
  then show ?case by simp
qed

lemma length_linearize: "length (linearize t) = 2 * nodes t"
proof (induction t)
  case (Node k v s cs)
  then have "sum_list (map (length \<circ> linearize) cs) = 2 * sum_list (map nodes cs)"
    by (induction cs) auto
  then show ?case by (simp add: length_concat comp_def)
qed

lemma count_terminators_linearize:
  "\<forall>s \<in> set (symbols t). s \<noteq> NO_EXPAND \<Longrightarrow> count_list (linearize t) NO_EXPAND = nodes t"
proof (induction t)
  case (Node k v s cs)
  have "count_list (concat (map linearize cs)) NO_EXPAND = sum_list (map nodes cs)"
    using Node by (induction cs) auto
  with Node.prems show ?case by simp
qed

lemma count_list_filter_neq:
  "length (filter (\<lambda>s. s \<noteq> x) xs) + count_list xs x = length xs"
  by (induction xs) auto

section \<open>Round trip\<close>

lemma read_linearize:
  "\<forall>s \<in> set (symbols t). \<not> is_terminator s \<Longrightarrow>
     read_node mk (linearize t @ rest) = (Some (rebuild mk t), rest)"
proof (induction t arbitrary: rest)
  case (Node k v s cs)
  have cs: "read_children mk (concat (map linearize cs) @ NO_EXPAND # rest)
              = (map (rebuild mk) cs, rest)"
    using Node
  proof (induction cs)
    case Nil
    show ?case
      by (subst read_children.simps) (simp add: is_terminator_def)
  next
    case (Cons c cs)
    have c: "read_node mk (linearize c @ concat (map linearize cs) @ NO_EXPAND # rest)
               = (Some (rebuild mk c), concat (map linearize cs) @ NO_EXPAND # rest)"
      using Cons.prems by simp
    have rest: "read_children mk (concat (map linearize cs) @ NO_EXPAND # rest)
               = (map (rebuild mk) cs, rest)"
      using Cons by simp
    show ?case
      by (subst read_children.simps) (simp add: c rest)
  qed
  from Node.prems have "\<not> is_terminator s" by simp
  then show ?case using cs by simp
qed

lemma symbols_rebuild: "symbols (rebuild mk t) = symbols t"
proof (induction t)
  case (Node k v s cs)
  then have cs: "map (\<lambda>c. symbols (rebuild mk c)) cs = map symbols cs" by simp
  show ?case by (simp add: comp_def cs)
qed

lemma child_counts_rebuild: "child_counts (rebuild mk t) = child_counts t"
proof (induction t)
  case (Node k v s cs)
  then have cs: "map (\<lambda>c. child_counts (rebuild mk c)) cs = map child_counts cs" by simp
  show ?case by (simp add: comp_def cs)
qed

text \<open>
  Claim C2. \<^verbatim>\<open>ast2list(T, 'dfs', [])\<close> is a pre-order traversal: what it leaves in the fresh
  list is \<open>linearize T\<close>, the symbol of each node before the sequences of its children
  and one terminator after them. The sequence has two entries per node; when no node
  carries the terminator as its symbol (the data model of the specification), the
  terminators in it and the other symbols in it are as many as the nodes.
\<close>

theorem ast2list_preorder:
  "ast2list t ''dfs'' (Some a) (h(a := [])) = (Inr (Some a), h(a := linearize t)) \<and>
   length (linearize t) = 2 * nodes t \<and>
   ((\<forall>s \<in> set (symbols t). s \<noteq> NO_EXPAND) \<longrightarrow>
      count_list (linearize t) NO_EXPAND = nodes t \<and>
      length (filter (\<lambda>s. s \<noteq> NO_EXPAND) (linearize t)) = nodes t)"
proof -
  have 1: "ast2list t ''dfs'' (Some a) (h(a := [])) = (Inr (Some a), h(a := linearize t))"
    by (simp add: ast2list_dfs_aux)
  have 2: "length (linearize t) = 2 * nodes t" by (rule length_linearize)
  have 3: "count_list (linearize t) NO_EXPAND = nodes t \<and>
      length (filter (\<lambda>s. s \<noteq> NO_EXPAND) (linearize t)) = nodes t"
    if "\<forall>s \<in> set (symbols t). s \<noteq> NO_EXPAND"
    using count_terminators_linearize[OF that]
      count_list_filter_neq[of NO_EXPAND "linearize t"] 2 by simp
  from 1 2 3 show ?thesis by blast
qed

theorem ast2list_preorder_witness:
  "ast2list sample_tree ''dfs'' (Some 0) ((\<lambda>r. [])(0 := []))
     = (Inr (Some 0), (\<lambda>r. [])(0 := [''HEADCOMMAND_find'', ''ARGUMENT_File'', ''<NO_EXPAND>'',
          ''FLAG_-name'', ''ARGUMENT_Regex'', ''<NO_EXPAND>'', ''<NO_EXPAND>'', ''<NO_EXPAND>''])) \<and>
   list_all (\<lambda>s. s \<noteq> NO_EXPAND) (symbols sample_tree) \<and>
   count_list (linearize sample_tree) NO_EXPAND = 4 \<and>
   length (filter (\<lambda>s. s \<noteq> NO_EXPAND) (linearize sample_tree)) = 4"
proof -
  have h: "\<forall>s \<in> set (symbols sample_tree). s \<noteq> NO_EXPAND"
    by (simp add: sample_tree_def NO_EXPAND_def)
  have n: "nodes sample_tree = 4" by (simp add: sample_tree_def)
  have l: "linearize sample_tree = [''HEADCOMMAND_find'', ''ARGUMENT_File'', ''<NO_EXPAND>'',
          ''FLAG_-name'', ''ARGUMENT_Regex'', ''<NO_EXPAND>'', ''<NO_EXPAND>'', ''<NO_EXPAND>'']"
    by (simp add: sample_tree_def NO_EXPAND_def)
  show ?thesis
    using ast2list_preorder[of sample_tree 0 "\<lambda>r. []"] h n l by (simp add: list_all_iff)
qed

text \<open>
  Claim C9. Given a list object, \<^verbatim>\<open>ast2list\<close> with order \<^verbatim>\<open>'dfs'\<close> returns the address it
  was given, and the heap differs only at that address, where the linearization is
  appended to what the list held; with any order the value returned is the address
  given. With the accumulator left at \<^verbatim>\<open>None\<close> and order \<^verbatim>\<open>'dfs'\<close> the call raises
  \<^verbatim>\<open>AttributeError\<close> and writes nothing.
\<close>

theorem ast2list_in_place:
  "ast2list t ''dfs'' (Some a) h = (Inr (Some a), h(a := h a @ linearize t)) \<and>
   fst (ast2list t order (Some a) h) = Inr (Some a) \<and>
   ast2list t ''dfs'' None h = (Inl AttributeError, h)"
proof -
  have "fst (ast2list t order (Some a) h) = Inr (Some a)"
    by (cases t; cases "order = ''dfs''") (simp_all add: ast2list_dfs_aux split: prod.splits)
  moreover have "ast2list t ''dfs'' None h = (Inl AttributeError, h)"
    by (cases t) simp
  ultimately show ?thesis
    by (simp add: ast2list_dfs_aux)
qed

text \<open>
  Claim C10. With any order other than \<^verbatim>\<open>'dfs'\<close>, \<^verbatim>\<open>ast2list\<close> returns its accumulator
  argument and leaves every list as it was.
\<close>

theorem ast2list_other_order:
  "order \<noteq> ''dfs'' \<Longrightarrow> ast2list t order l h = (Inr l, h)"
  by (cases t) simp

theorem ast2list_other_order_witness:
  "''bfs'' \<noteq> ''dfs'' \<and>
   ast2list sample_tree ''bfs'' (Some 0) (\<lambda>r. [''kept'']) = (Inr (Some 0), \<lambda>r. [''kept''])"
proof -
  have h: "''bfs'' \<noteq> ''dfs''" by simp
  show ?thesis using h ast2list_other_order[OF h] by simp
qed

text \<open>
  Claim C1. For a tree none of whose symbols is the terminator or the padding symbol,
  delinearizing what \<^verbatim>\<open>ast2list(T, 'dfs', [])\<close> returns yields a tree with the pre-order
  symbols and the child counts of \<open>T\<close>.
\<close>

theorem roundtrip:
  assumes "\<forall>s \<in> set (symbols t). \<not> is_terminator s"
  shows "\<exists>t'. list2ast mk (snd (ast2list t ''dfs'' (Some a) (h(a := []))) a) ''dfs'' = Some t'
           \<and> symbols t' = symbols t \<and> child_counts t' = child_counts t"
proof -
  have "snd (ast2list t ''dfs'' (Some a) (h(a := []))) a = linearize t"
    by (simp add: ast2list_dfs_aux)
  moreover have "read_node mk (linearize t @ []) = (Some (rebuild mk t), [])"
    using assms by (rule read_linearize)
  ultimately have "list2ast mk (snd (ast2list t ''dfs'' (Some a) (h(a := []))) a) ''dfs''
      = Some (rebuild mk t)"
    by (simp add: list2ast_def list_to_ast_def)
  then show ?thesis
    by (simp add: symbols_rebuild child_counts_rebuild)
qed

theorem roundtrip_witness:
  "list_all (\<lambda>s. \<not> is_terminator s) (symbols sample_tree) \<and>
   (\<exists>t'. list2ast (\<lambda>s. ([], [])) (snd (ast2list sample_tree ''dfs'' (Some 0) ((\<lambda>r. [])(0 := []))) 0) ''dfs'' = Some t'
           \<and> symbols t' = symbols sample_tree \<and> child_counts t' = child_counts sample_tree)"
proof -
  have h: "\<forall>s \<in> set (symbols sample_tree). \<not> is_terminator s"
    by (simp add: sample_tree_def is_terminator_def NO_EXPAND_def PAD_def)
  show ?thesis using h roundtrip[OF h] by (simp add: list_all_iff)
qed

section \<open>The lexical normalizer, pass by pass\<close>

lemma after_spelling_eq:
  "after_spelling env sentence nd nlp word =
     (possessive (normalize_digits_stage env nd
        (fst (normalize_long_patterns env nlp sentence
               (normalize_regular_expressions env (number_words env word))))),
      snd (normalize_long_patterns env nlp sentence
             (normalize_regular_expressions env (number_words env word))))"
  by (simp add: after_spelling_def Let_def case_prod_beta)

lemma tokenize_word_stages:
  "tokenize_word env sentence lc nd nlp lm rsw w =
     (if rsw \<and> fst (spelling_correction env (before_spelling env lc lm w))
                  \<in> ENGLISH_STOPWORDS env
      then ([], snd (spelling_correction env (before_spelling env lc lm w)))
      else (fst (after_spelling env sentence nd nlp
                   (fst (spelling_correction env (before_spelling env lc lm w)))),
            snd (spelling_correction env (before_spelling env lc lm w)) @
            snd (after_spelling env sentence nd nlp
                   (fst (spelling_correction env (before_spelling env lc lm w))))))"
  by (simp add: tokenize_word_def before_spelling_def after_spelling_def Let_def
        case_prod_beta)

lemma tokenize_words_concat:
  "tokenize_words env sentence lc nd nlp lm rsw ws (toks, printed) =
     (toks @ concat (map (\<lambda>w. fst (tokenize_word env sentence lc nd nlp lm rsw w)) ws),
      printed @ concat (map (\<lambda>w. snd (tokenize_word env sentence lc nd nlp lm rsw w)) ws))"
  by (induction ws arbitrary: toks printed) (auto split: prod.splits)

lemma basic_tokenizer_passes:
  "basic_tokenizer env s lc nd nlp lm rsw =
     (concat (map (\<lambda>w. fst (tokenize_word env (rewrite_sentence s) lc nd nlp lm rsw w))
                (findall_WORD_SPLIT_RESPECT_QUOTES (rewrite_sentence s))),
      concat (map (\<lambda>w. snd (tokenize_word env (rewrite_sentence s) lc nd nlp lm rsw w))
                (findall_WORD_SPLIT_RESPECT_QUOTES (rewrite_sentence s))))"
  by (simp add: basic_tokenizer_def Let_def tokenize_words_concat)

text \<open>
  Claim C3. A word that reaches the long-pattern stage with a space in it and more than
  three characters is expected to be wrapped in double quotes. If it is not, the pass
  prints the diagnostic \<^verbatim>\<open>Quotation Error: space inside word\<close> with the sentence and goes
  on: it still appends its tokens. Whether or not the word is quoted, it becomes the
  long-pattern placeholder when long-pattern normalization is requested, and then passes
  through the digit and possessive stages. \<open>basic_tokenizer\<close> returns the tokens of all
  the passes in order, beside all that they printed.
\<close>

theorem long_pattern_invariant:
  assumes "\<not> (rsw \<and> fst (spelling_correction env (before_spelling env lc lm w))
                    \<in> ENGLISH_STOPWORDS env)"
    and "word = before_long_patterns env lc lm w"
    and "CHR '' '' \<in> set word" and "3 < length word"
  shows "tokenize_word env sentence lc nd nlp lm rsw w =
           (possessive (normalize_digits_stage env nd (if nlp then LONG_PATTERN env else word)),
            snd (spelling_correction env (before_spelling env lc lm w)) @
            (if quoted word then [] else [''Quotation Error: space inside word '' @ sentence])) \<and>
         basic_tokenizer env s lc nd nlp lm rsw =
           (concat (map (\<lambda>w. fst (tokenize_word env (rewrite_sentence s) lc nd nlp lm rsw w))
                      (findall_WORD_SPLIT_RESPECT_QUOTES (rewrite_sentence s))),
            concat (map (\<lambda>w. snd (tokenize_word env (rewrite_sentence s) lc nd nlp lm rsw w))
                      (findall_WORD_SPLIT_RESPECT_QUOTES (rewrite_sentence s))))"
proof -
  have "tokenize_word env sentence lc nd nlp lm rsw w =
      (possessive (normalize_digits_stage env nd
         (fst (normalize_long_patterns env nlp sentence word))),
       snd (spelling_correction env (before_spelling env lc lm w)) @
       snd (normalize_long_patterns env nlp sentence word))"
    using assms(1,2)
    by (auto simp: tokenize_word_stages after_spelling_eq before_long_patterns_def)
  then have "tokenize_word env sentence lc nd nlp lm rsw w =
      (possessive (normalize_digits_stage env nd (if nlp then LONG_PATTERN env else word)),
       snd (spelling_correction env (before_spelling env lc lm w)) @
       (if quoted word then [] else [''Quotation Error: space inside word '' @ sentence]))"
    using assms(3,4) by (simp add: normalize_long_patterns_def)
  then show ?thesis
    using basic_tokenizer_passes[of env s lc nd nlp lm rsw] by simp
qed

theorem long_pattern_invariant_witness:
  "tokenize_word sample_env ''find it'' True True True True True
       (dquote # ''list all files'' @ [dquote])
     = ([''_LONG_PATTERN''], []) \<and>
   tokenize_word (sample_env\<lparr>is_english_word := (\<lambda>w. True)\<rparr>) ''find it'' True True False True True
       (''x'' @ dquote # ''list all'' @ dquote # ''y'')
     = ([''x'' @ dquote # ''list all'' @ dquote # ''y''],
        [''Quotation Error: space inside word find it''])"
proof -
  let ?q = "dquote # ''list all files'' @ [dquote]"
  let ?u = "''x'' @ dquote # ''list all'' @ dquote # ''y''"
  let ?env = "sample_env\<lparr>is_english_word := (\<lambda>w. True)\<rparr>"
  have q1: "\<not> (True \<and> fst (spelling_correction sample_env (before_spelling sample_env True True ?q))
                    \<in> ENGLISH_STOPWORDS sample_env)"
    by code_simp
  have q2: "?q = before_long_patterns sample_env True True ?q" by code_simp
  have q3: "CHR '' '' \<in> set ?q" by code_simp
  have q4: "3 < length ?q" by code_simp
  have q5: "quoted ?q" by code_simp
  have q6: "snd (spelling_correction sample_env (before_spelling sample_env True True ?q)) = []"
    by code_simp
  have q7: "possessive (normalize_digits_stage sample_env True (LONG_PATTERN sample_env))
              = [''_LONG_PATTERN'']"
    by code_simp
  have u1: "\<not> (True \<and> fst (spelling_correction ?env (before_spelling ?env True True ?u))
                    \<in> ENGLISH_STOPWORDS ?env)"
    by code_simp
  have u2: "?u = before_long_patterns ?env True True ?u" by code_simp
  have u3: "CHR '' '' \<in> set ?u" by code_simp
  have u4: "3 < length ?u" by code_simp
  have u5: "\<not> quoted ?u" by code_simp
  have u6: "snd (spelling_correction ?env (before_spelling ?env True True ?u)) = []"
    by code_simp
  have u7: "possessive (normalize_digits_stage ?env True ?u) = [?u]"
    by code_simp
  show ?thesis
    using long_pattern_invariant[OF q1 q2 q3 q4, THEN conjunct1, of "''find it''" True True]
      long_pattern_invariant[OF u1 u2 u3 u4, THEN conjunct1, of "''find it''" True False]
      q5 q6 q7 u5 u6 u7
    by simp
qed


text \<open>
  Claim C4. With digit normalization on, the word that reaches the digit stage has the
  matches of the digit pattern in it replaced by the numeral placeholder, unless it begins
  with \<^verbatim>\<open>-\<close>, which leaves it as it is; with digit normalization off it is left as it is.
  In the sample environment \<^verbatim>\<open>dir1\<close> becomes \<^verbatim>\<open>dir_NUM\<close> and \<^verbatim>\<open>-1\<close> stays.
\<close>

theorem digit_normalization:
  assumes "\<not> (rsw \<and> fst (spelling_correction env (before_spelling env lc lm w))
                    \<in> ENGLISH_STOPWORDS env)"
    and "word = fst (normalize_long_patterns env nlp sentence (before_long_patterns env lc lm w))"
  shows "(nd \<and> \<not> startswith word ''-'' \<longrightarrow>
            fst (tokenize_word env sentence lc nd nlp lm rsw w)
              = possessive (sub_DIGIT_RE env (NUM env) word)) \<and>
         (startswith word ''-'' \<longrightarrow>
            fst (tokenize_word env sentence lc nd nlp lm rsw w) = possessive word) \<and>
         (\<not> nd \<longrightarrow>
            fst (tokenize_word env sentence lc nd nlp lm rsw w) = possessive word)"
proof -
  have "fst (tokenize_word env sentence lc nd nlp lm rsw w) =
      possessive (normalize_digits_stage env nd word)"
    using assms
    by (auto simp: tokenize_word_stages after_spelling_eq before_long_patterns_def)
  then show ?thesis
    by (cases nd) (simp_all add: normalize_digits_stage_def)
qed

theorem digit_normalization_witness:
  "fst (tokenize_word sample_env ''cd dir1'' True True True True True ''dir1'') = [''dir_NUM''] \<and>
   fst (tokenize_word sample_env ''cd dir1'' True True True True True ''-1'') = [''-1''] \<and>
   fst (tokenize_word sample_env ''cd dir1'' True False True True True ''dir1'') = [''dir1'']"
proof -
  have d1: "\<not> (True \<and> fst (spelling_correction sample_env (before_spelling sample_env True True ''dir1''))
                    \<in> ENGLISH_STOPWORDS sample_env)"
    by code_simp
  have d2: "''dir1'' = fst (normalize_long_patterns sample_env True ''cd dir1''
                             (before_long_patterns sample_env True True ''dir1''))"
    by code_simp
  have d3: "\<not> startswith ''dir1'' ''-''" by code_simp
  have d4: "possessive (sub_DIGIT_RE sample_env (NUM sample_env) ''dir1'') = [''dir_NUM'']"
    by code_simp
  have d5: "possessive ''dir1'' = [''dir1'']" by code_simp
  have m1: "\<not> (True \<and> fst (spelling_correction sample_env (before_spelling sample_env True True ''-1''))
                    \<in> ENGLISH_STOPWORDS sample_env)"
    by code_simp
  have m2: "''-1'' = fst (normalize_long_patterns sample_env True ''cd dir1''
                             (before_long_patterns sample_env True True ''-1''))"
    by code_simp
  have m3: "startswith ''-1'' ''-''" by code_simp
  have m4: "possessive ''-1'' = [''-1'']" by code_simp
  show ?thesis
    using digit_normalization[OF d1 d2, of True] digit_normalization[OF m1 m2, of True]
      digit_normalization[OF d1 d2, of False] d3 d4 d5 m3 m4
    by simp
qed

text \<open>
  Claim C7, as amended. No argument of \<open>basic_tokenizer\<close> switches the spelling correction
  off: for every setting of the five switches, the word that leaves the lemmatization
  stage is corrected exactly when it is purely alphabetic, and the pass prints the pair
  \<^verbatim>\<open>spell correction: old -> new\<close> exactly when the correction changed it. The
  counterexample runs the tokenizer with every switch off.
\<close>

theorem spelling_correction_unconditional:
  "tokenize_word env sentence lc nd nlp lm rsw w =
     (let old_w = before_spelling env lc lm w;
          word = (if isalpha old_w then correction env old_w else old_w);
          printed = (if isalpha old_w \<and> correction env old_w \<noteq> old_w
                     then [''spell correction: '' @ old_w @ '' -> '' @ correction env old_w]
                     else [])
      in if rsw \<and> word \<in> ENGLISH_STOPWORDS env then ([], printed)
         else (fst (after_spelling env sentence nd nlp word),
               printed @ snd (after_spelling env sentence nd nlp word)))"
  by (auto simp: tokenize_word_stages spelling_correction_def Let_def)

text \<open>
  With all five switches off the misspelt word is still corrected and the correction is
  still printed.
\<close>

theorem spelling_correction_counterexample:
  "basic_tokenizer sample_env ''teh'' False False False False False
     = ([''the''], [''spell correction: teh -> the''])"
  by code_simp

section \<open>The character tokenizer is the separated sequence\<close>

lemma fold_chars: "fold (\<lambda>c chars. chars @ [[c]]) token chars = chars @ map (\<lambda>c. [c]) token"
  by (induction token arbitrary: chars) auto

lemma fold_append_token:
  "fold append_token tokens chars
     = chars @ concat (map (\<lambda>t. map (\<lambda>c. [c]) t @ [SPACE]) tokens)"
  by (induction tokens arbitrary: chars) (auto simp: append_token_def fold_chars)

lemma butlast_tokens:
  "butlast (concat (map (\<lambda>t. map (\<lambda>c. [c]) t @ [SPACE]) tokens)) = separated tokens"
proof (induction tokens rule: separated.induct)
  case 1
  show ?case by simp
next
  case (2 t)
  show ?case by (simp add: butlast_append)
next
  case (3 t u ts)
  then show ?case by (simp add: butlast_append)
qed

lemma count_chars_SPACE: "count_list (map (\<lambda>c. [c]) t) SPACE = 0"
  by (induction t) (auto simp: SPACE_def)

lemma count_separated: "count_list (separated tokens) SPACE = length tokens - 1"
  by (induction tokens rule: separated.induct) (auto simp: count_chars_SPACE)

text \<open>
  Claim C6. \<open>char_tokenizer\<close> returns the characters of the base tokenizer's tokens with
  one separator between successive tokens and none after the last; the base tokenizer is
  called with both normalizations off. Without a base tokenizer the sentence is the only
  token, so the result is its characters, and the empty sentence gives the empty
  sequence. The separators in the sequence are one fewer than the tokens.
\<close>

theorem char_tokenizer_separated:
  "char_tokenizer sentence (Some f) nd nlp
     = (separated (fst (f sentence False False)), snd (f sentence False False)) \<and>
   char_tokenizer sentence None nd nlp = (map (\<lambda>c. [c]) sentence, []) \<and>
   char_tokenizer [] None nd nlp = ([], []) \<and>
   count_list (separated tokens) SPACE = length tokens - 1"
  by (simp add: char_tokenizer_def fold_append_token butlast_tokens count_separated
        split: prod.splits)

section \<open>Templates\<close>

text \<open>
  Claim C5. \<open>cmd2template\<close> is \<open>ast2template\<close> after \<open>bash_parser\<close> with the same
  switches: the same value or exception and the same final state of the normalizer, for
  every command text, every setting of the switches and every normalizer.
\<close>

theorem cmd2template_composition:
  "cmd2template nz cmd nd nlp rq arg_type_only loose st =
     render_after_parse (bash_parser nz cmd nd nlp rq)
       (\<lambda>tree. ast2template nz tree loose arg_type_only) st"
  by (simp add: cmd2template_def render_after_parse_def bash_parser_def)

section \<open>The pretty printer never raises\<close>

lemma pretty_print_lines:
  "pretty_print n depth out = (None, out @ printed_lines n depth)"
  "pretty_print_children cs depth out
     = (None, out @ concat (map (\<lambda>c. printed_lines c (depth + 1)) cs))"
proof (induction n depth out and cs depth out rule: pretty_print_pretty_print_children.induct)
  case (1 k v cs depth out)
  then show ?case by (auto split: option.splits)
next
  case (2 depth out)
  show ?case by simp
next
  case (3 c cs depth out)
  then show ?case by simp
qed

text \<open>
  Claim C8, as amended. \<open>pretty_print\<close> never raises and adds exactly \<open>printed_lines\<close>
  to the output: for an object with \<^verbatim>\<open>kind\<close>, \<^verbatim>\<open>value\<close> and \<^verbatim>\<open>children\<close> its indented line
  and then the lines of its children one level deeper; for an object without \<^verbatim>\<open>kind\<close> or
  without \<^verbatim>\<open>value\<close> the indentation only, its children not being visited; for an object
  with both and without \<^verbatim>\<open>children\<close> its indented line and then a line of indentation.
\<close>

theorem pretty_print_fallback:
  "pretty_print n depth out = (None, out @ printed_lines n depth)"
  by (rule pretty_print_lines)

text \<open>
  An object that lacks only \<^verbatim>\<open>children\<close> has its line printed before the indentation.
\<close>

theorem pretty_print_counterexample:
  "pretty_print (PyObj (Some ''command'') (Some ''ls'') None) 1 []
     = (None, [''    COMMAND(ls)'', ''    ''])"
  by code_simp

end
